theory Spec2Isabelle
  imports Complex_Main
begin

section \<open>Values and exceptions of the host platform\<close>

text \<open>
  The viewer is a browser program. Exceptions are values of type \<open>error\<close>; a
  computation that may throw returns \<open>error + 'a\<close> with \<open>Inl\<close> for the exception.
  JavaScript numbers are modelled as real numbers (rounding of IEEE doubles is not
  modelled).
\<close>

datatype error = SecurityError | QuotaExceededError | SyntaxError | TypeError

section \<open>Fullscreen hook (src/hooks/useFullscreen.ts)\<close>

datatype Element = Element string

text \<open>\<open>document.documentElement\<close>: each optional method is present or absent.\<close>

record DocumentElementWithFullscreen =
  requestFullscreen :: bool
  mozRequestFullScreen :: bool
  webkitRequestFullscreen :: bool
  msRequestFullscreen :: bool

record DocumentWithFullscreen =
  fullscreenElement :: "Element option"
  mozFullScreenElement :: "Element option"
  webkitFullscreenElement :: "Element option"
  msFullscreenElement :: "Element option"
  exitFullscreen :: bool
  mozCancelFullScreen :: bool
  webkitExitFullscreen :: bool
  msExitFullscreen :: bool
  documentElement :: DocumentElementWithFullscreen

text \<open>The platform method a toggle ends up invoking.\<close>

datatype fullscreen_call =
    Call_requestFullscreen
  | Call_mozRequestFullScreen
  | Call_webkitRequestFullscreen
  | Call_msRequestFullscreen
  | Call_exitFullscreen
  | Call_mozCancelFullScreen
  | Call_webkitExitFullscreen
  | Call_msExitFullscreen

text \<open>JavaScript \<open>a || b\<close> on object-or-null operands: the first operand when it is an
  object, the second otherwise. \<open>!!x\<close> is true exactly for an object.\<close>

definition js_or :: "'a option \<Rightarrow> 'a option \<Rightarrow> 'a option" where
  "js_or a b = (case a of Some x \<Rightarrow> Some x | None \<Rightarrow> b)"

definition js_truthy :: "'a option \<Rightarrow> bool" where
  "js_truthy a = (case a of Some x \<Rightarrow> True | None \<Rightarrow> False)"

text \<open>Calling a method of the platform object: a \<open>TypeError\<close> when it is absent.\<close>

definition invoke :: "bool \<Rightarrow> fullscreen_call \<Rightarrow> error + fullscreen_call option" where
  "invoke present c = (if present then Inr (Some c) else Inl TypeError)"

text \<open>The state of the hook: the cached flag returned to the component.\<close>

record fullscreen_hook =
  isFullscreen :: bool

text \<open>The initialiser of \<open>useState\<close> (lines 19-27).\<close>

definition useFullscreen_init :: "DocumentWithFullscreen \<Rightarrow> fullscreen_hook" where
  "useFullscreen_init doc =
     \<lparr>isFullscreen =
        js_truthy (js_or (js_or (js_or (fullscreenElement doc) (mozFullScreenElement doc))
                                (webkitFullscreenElement doc))
                         (msFullscreenElement doc))\<rparr>"

text \<open>The change-notification handler (lines 64-73): probe again, store the result.\<close>

definition handleFullscreenChange ::
  "DocumentWithFullscreen \<Rightarrow> fullscreen_hook \<Rightarrow> fullscreen_hook" where
  "handleFullscreenChange doc h =
     (let isCurrentlyFullscreen =
            js_truthy (js_or (js_or (js_or (fullscreenElement doc) (mozFullScreenElement doc))
                                    (webkitFullscreenElement doc))
                             (msFullscreenElement doc))
      in h\<lparr>isFullscreen := isCurrentlyFullscreen\<rparr>)"

text \<open>\<open>toggleFullscreen\<close> (lines 29-61). It returns the hook state it leaves behind and
  the platform method it invoked (\<open>None\<close> when it invoked nothing), or the exception
  it threw.\<close>

definition toggleFullscreen ::
  "fullscreen_hook \<Rightarrow> DocumentWithFullscreen \<Rightarrow> error + (fullscreen_hook \<times> fullscreen_call option)" where
  "toggleFullscreen h doc =
     (let element = documentElement doc;
          isCurrentlyFullscreen =
            js_truthy (js_or (js_or (js_or (fullscreenElement doc) (mozFullScreenElement doc))
                                    (webkitFullscreenElement doc))
                             (msFullscreenElement doc));
          called =
            (if \<not> isCurrentlyFullscreen then
               (if requestFullscreen element then invoke (requestFullscreen element) Call_requestFullscreen
                else if mozRequestFullScreen element then invoke (mozRequestFullScreen element) Call_mozRequestFullScreen
                else if webkitRequestFullscreen element then invoke (webkitRequestFullscreen element) Call_webkitRequestFullscreen
                else if msRequestFullscreen element then invoke (msRequestFullscreen element) Call_msRequestFullscreen
                else Inr None)
             else
               (if exitFullscreen doc then invoke (exitFullscreen doc) Call_exitFullscreen
                else if mozCancelFullScreen doc then invoke (mozCancelFullScreen doc) Call_mozCancelFullScreen
                else if webkitExitFullscreen doc then invoke (webkitExitFullscreen doc) Call_webkitExitFullscreen
                else if msExitFullscreen doc then invoke (msExitFullscreen doc) Call_msExitFullscreen
                else Inr None))
      in case called of Inl e \<Rightarrow> Inl e | Inr c \<Rightarrow> Inr (h, c))"

text \<open>The two families of calls.\<close>

fun is_request :: "fullscreen_call \<Rightarrow> bool" where
  "is_request Call_requestFullscreen = True"
| "is_request Call_mozRequestFullScreen = True"
| "is_request Call_webkitRequestFullscreen = True"
| "is_request Call_msRequestFullscreen = True"
| "is_request _ = False"

text \<open>
  The first non-empty result of the four accessors, unprefixed first, then the Mozilla,
  WebKit and Microsoft variants: the probe as the specification words it.
\<close>

definition first_fullscreen_element :: "DocumentWithFullscreen \<Rightarrow> Element option" where
  "first_fullscreen_element doc =
     (case fullscreenElement doc of Some e \<Rightarrow> Some e | None \<Rightarrow>
      (case mozFullScreenElement doc of Some e \<Rightarrow> Some e | None \<Rightarrow>
       (case webkitFullscreenElement doc of Some e \<Rightarrow> Some e | None \<Rightarrow>
          msFullscreenElement doc)))"

text \<open>The method each branch of the toggle reaches, in the order it tries them.\<close>

fun request_call :: "DocumentElementWithFullscreen \<Rightarrow> fullscreen_call option" where
  "request_call element =
     (if requestFullscreen element then Some Call_requestFullscreen
      else if mozRequestFullScreen element then Some Call_mozRequestFullScreen
      else if webkitRequestFullscreen element then Some Call_webkitRequestFullscreen
      else if msRequestFullscreen element then Some Call_msRequestFullscreen
      else None)"

fun exit_call :: "DocumentWithFullscreen \<Rightarrow> fullscreen_call option" where
  "exit_call doc =
     (if exitFullscreen doc then Some Call_exitFullscreen
      else if mozCancelFullScreen doc then Some Call_mozCancelFullScreen
      else if webkitExitFullscreen doc then Some Call_webkitExitFullscreen
      else if msExitFullscreen doc then Some Call_msExitFullscreen
      else None)"

text \<open>The platform exposes none of the four request methods and none of the four exit
  methods.\<close>

definition no_fullscreen_api :: "DocumentWithFullscreen \<Rightarrow> bool" where
  "no_fullscreen_api doc =
     (\<not> requestFullscreen (documentElement doc) \<and> \<not> mozRequestFullScreen (documentElement doc)
      \<and> \<not> webkitRequestFullscreen (documentElement doc) \<and> \<not> msRequestFullscreen (documentElement doc)
      \<and> \<not> exitFullscreen doc \<and> \<not> mozCancelFullScreen doc
      \<and> \<not> webkitExitFullscreen doc \<and> \<not> msExitFullscreen doc)"

text \<open>A platform stub without any fullscreen support.\<close>

definition stub_document :: DocumentWithFullscreen where
  "stub_document =
     \<lparr>fullscreenElement = None, mozFullScreenElement = None,
      webkitFullscreenElement = None, msFullscreenElement = None,
      exitFullscreen = False, mozCancelFullScreen = False,
      webkitExitFullscreen = False, msExitFullscreen = False,
      documentElement = \<lparr>requestFullscreen = False, mozRequestFullScreen = False,
                         webkitRequestFullscreen = False, msRequestFullscreen = False\<rparr>\<rparr>"

text \<open>A platform with the standard exit method and the WebKit request and exit methods,
  not in fullscreen.\<close>

definition webkit_document :: DocumentWithFullscreen where
  "webkit_document =
     \<lparr>fullscreenElement = None, mozFullScreenElement = None,
      webkitFullscreenElement = None, msFullscreenElement = None,
      exitFullscreen = True, mozCancelFullScreen = False,
      webkitExitFullscreen = True, msExitFullscreen = False,
      documentElement = \<lparr>requestFullscreen = False, mozRequestFullScreen = False,
                         webkitRequestFullscreen = True, msRequestFullscreen = False\<rparr>\<rparr>"

section \<open>Preference store (useLocalStorage, src/App.tsx lines 588-610)\<close>

text \<open>
  The browser's \<open>localStorage\<close>: the persisted entries, and how the platform answers
  each operation on each key. An operation either throws (storage denied to the page,
  or full on a write) or acts on the entries. The three \<open>_error\<close> fields are the
  platform's behaviour; no operation of the program changes them.
\<close>

record Storage =
  items :: "string \<rightharpoonup> string"
  getItem_error :: "string \<Rightarrow> error option"
  setItem_error :: "string \<Rightarrow> error option"
  removeItem_error :: "string \<Rightarrow> error option"

definition getItem :: "Storage \<Rightarrow> string \<Rightarrow> error + string option" where
  "getItem ls key = (case getItem_error ls key of Some e \<Rightarrow> Inl e | None \<Rightarrow> Inr (items ls key))"

definition setItem :: "Storage \<Rightarrow> string \<Rightarrow> string \<Rightarrow> error + Storage" where
  "setItem ls key text =
     (case setItem_error ls key of
        Some e \<Rightarrow> Inl e
      | None \<Rightarrow> Inr (ls\<lparr>items := (items ls)(key \<mapsto> text)\<rparr>))"

definition removeItem :: "Storage \<Rightarrow> string \<Rightarrow> error + Storage" where
  "removeItem ls key =
     (case removeItem_error ls key of
        Some e \<Rightarrow> Inl e
      | None \<Rightarrow> Inr (ls\<lparr>items := (items ls)(key := None)\<rparr>))"

text \<open>
  The platform's \<open>JSON.parse\<close> and \<open>JSON.stringify\<close>, at the two types the viewer
  stores (TypeScript's \<open>T\<close> is \<open>boolean\<close> or \<open>number\<close>). They are parameters of
  the model; \<open>Inl\<close> is a thrown \<open>SyntaxError\<close>.
\<close>

record JSON =
  parse_boolean :: "string \<Rightarrow> error + bool"
  parse_number :: "string \<Rightarrow> error + real"
  stringify_boolean :: "bool \<Rightarrow> string"
  stringify_number :: "real \<Rightarrow> string"

text \<open>
  The lazy initialiser of the hook's state (lines 589-597): \<open>item ? JSON.parse(item) :
  initialValue\<close> inside \<open>try\<close>; the \<open>catch\<close> logs and returns \<open>initialValue\<close>.
  A string is falsy exactly when it is empty, \<open>null\<close> is falsy.
\<close>

definition useLocalStorage_init ::
  "(string \<Rightarrow> error + 'a) \<Rightarrow> Storage \<Rightarrow> string \<Rightarrow> 'a \<Rightarrow> 'a" where
  "useLocalStorage_init parse ls key initialValue =
     (case getItem ls key of
        Inl e \<Rightarrow> initialValue
      | Inr item \<Rightarrow>
          (case item of
             None \<Rightarrow> initialValue
           | Some text \<Rightarrow>
               if text = [] then initialValue
               else (case parse text of Inl e \<Rightarrow> initialValue | Inr v \<Rightarrow> v)))"

text \<open>
  \<open>setValue\<close> (lines 599-607) on the pair of the hook's in-memory \<open>storedValue\<close> and
  the storage. A boolean or a number is never a \<open>Function\<close>, so \<open>valueToStore\<close> is the
  argument. \<open>setStoredValue\<close> runs before \<open>setItem\<close>; when \<open>setItem\<close> throws, the
  \<open>catch\<close> logs and the in-memory value stays updated.
\<close>

definition setValue ::
  "('a \<Rightarrow> string) \<Rightarrow> string \<Rightarrow> 'a \<Rightarrow> 'a \<times> Storage \<Rightarrow> 'a \<times> Storage" where
  "setValue stringify key v hook =
     (let valueToStore = v;
          storedValue = valueToStore
      in case setItem (snd hook) key (stringify valueToStore) of
           Inl e \<Rightarrow> (storedValue, snd hook)
         | Inr ls' \<Rightarrow> (storedValue, ls'))"

section \<open>Hotspots and the application state (src/App.tsx)\<close>

datatype orientation = horizontal | vertical

text \<open>\<open>PointData\<close> (lines 23-31) without its image asset and description rows.\<close>

record PointData =
  point_id :: int
  title :: string
  position :: "real \<times> real \<times> real"
  alt :: string
  orientation :: orientation

definition pointsData :: "PointData list" where
  "pointsData =
     [\<lparr>point_id = 1,
       title = ''Radio receiver (PV-1 Ventura aircraft of Lieutenant Jack R. Cowles)'',
       position = (0, 3.25, -4.4), alt = ''Radio receiver'', orientation = horizontal\<rparr>,
      \<lparr>point_id = 2,
       title = ''Technical nameplate from the PV-1 Ventura flown by Lieutenant Jack R. Cowles'',
       position = (0, 3.9, 1.7), alt = ''Technical nameplates'', orientation = horizontal\<rparr>,
      \<lparr>point_id = 3,
       title = ''Technical cylinder (PV-1 Ventura aircraft of Lieutenant Jack R. Cowles)'',
       position = (0.9, 2.6, 0.3), alt = ''Technical cylinder'', orientation = horizontal\<rparr>]"

text \<open>The state of \<open>App\<close> (lines 267-276): nine persisted preferences, the active
  hotspot, and the storage behind the preferences.\<close>

record App =
  isAutoRotating :: bool
  ambientIntensity :: real
  directionalIntensity :: real
  lightAngle :: real
  activePoint :: "PointData option"
  showPoints :: bool
  pointSize :: real
  rotationSpeed :: real
  isPropellerSpinning :: bool
  propellerSpeed :: real
  localStorage :: Storage

text \<open>Mounting \<open>App\<close>: every preference hook runs its initialiser (lines 267-276).\<close>

definition App_init :: "JSON \<Rightarrow> Storage \<Rightarrow> App" where
  "App_init J ls =
     \<lparr>isAutoRotating = useLocalStorage_init (parse_boolean J) ls ''isAutoRotating'' True,
      ambientIntensity = useLocalStorage_init (parse_number J) ls ''ambientIntensity'' 0,
      directionalIntensity = useLocalStorage_init (parse_number J) ls ''directionalIntensity'' 2,
      lightAngle = useLocalStorage_init (parse_number J) ls ''lightAngle'' 70,
      activePoint = None,
      showPoints = useLocalStorage_init (parse_boolean J) ls ''showPoints'' True,
      pointSize = useLocalStorage_init (parse_number J) ls ''pointSize'' 0.6,
      rotationSpeed = useLocalStorage_init (parse_number J) ls ''rotationSpeed'' 0.3,
      isPropellerSpinning = useLocalStorage_init (parse_boolean J) ls ''isPropellerSpinning'' True,
      propellerSpeed = useLocalStorage_init (parse_number J) ls ''propellerSpeed'' 15,
      localStorage = ls\<rparr>"

text \<open>
  The nine \<open>localStorage.removeItem\<close> statements of \<open>resetSettings\<close> (lines 298-306),
  run in order; none is inside a \<open>try\<close>, so the first one that throws ends the
  handler with the storage as the earlier statements left it.
\<close>

fun removeItems :: "string list \<Rightarrow> Storage \<Rightarrow> (error \<times> Storage) + Storage" where
  "removeItems [] ls = Inr ls"
| "removeItems (key # keys) ls =
     (case removeItem ls key of
        Inl e \<Rightarrow> Inl (e, ls)
      | Inr ls' \<Rightarrow> removeItems keys ls')"

definition preference_keys :: "string list" where
  "preference_keys =
     [''isAutoRotating'', ''ambientIntensity'', ''directionalIntensity'', ''lightAngle'',
      ''showPoints'', ''pointSize'', ''rotationSpeed'', ''isPropellerSpinning'',
      ''propellerSpeed'']"

text \<open>
  \<open>resetSettings\<close> (lines 288-307): the nine setters, then the nine removals.
  \<open>Inr\<close> is a normal return; \<open>Inl (e, st)\<close> is the exception \<open>e\<close> leaving the handler,
  with the state \<open>st\<close> the handler had reached (state updates already requested are
  still applied by React).
\<close>

definition resetSettings :: "JSON \<Rightarrow> App \<Rightarrow> (error \<times> App) + App" where
  "resetSettings J st =
     (let h1 = setValue (stringify_boolean J) ''isAutoRotating'' True (isAutoRotating st, localStorage st);
          h2 = setValue (stringify_number J) ''ambientIntensity'' 0 (ambientIntensity st, snd h1);
          h3 = setValue (stringify_number J) ''directionalIntensity'' 2 (directionalIntensity st, snd h2);
          h4 = setValue (stringify_number J) ''lightAngle'' 70 (lightAngle st, snd h3);
          h5 = setValue (stringify_boolean J) ''showPoints'' True (showPoints st, snd h4);
          h6 = setValue (stringify_number J) ''pointSize'' 0.6 (pointSize st, snd h5);
          h7 = setValue (stringify_number J) ''rotationSpeed'' 0.3 (rotationSpeed st, snd h6);
          h8 = setValue (stringify_boolean J) ''isPropellerSpinning'' True (isPropellerSpinning st, snd h7);
          h9 = setValue (stringify_number J) ''propellerSpeed'' 15 (propellerSpeed st, snd h8);
          st' = st\<lparr>isAutoRotating := fst h1, ambientIntensity := fst h2,
                    directionalIntensity := fst h3, lightAngle := fst h4,
                    showPoints := fst h5, pointSize := fst h6, rotationSpeed := fst h7,
                    isPropellerSpinning := fst h8, propellerSpeed := fst h9\<rparr>
      in case removeItems
                [''isAutoRotating'', ''ambientIntensity'', ''directionalIntensity'', ''lightAngle'',
                 ''showPoints'', ''pointSize'', ''rotationSpeed'', ''isPropellerSpinning'',
                 ''propellerSpeed''] (snd h9) of
           Inl (e, ls) \<Rightarrow> Inl (e, st'\<lparr>localStorage := ls\<rparr>)
         | Inr ls \<Rightarrow> Inr (st'\<lparr>localStorage := ls\<rparr>))"

text \<open>The state a handler leaves behind, however it ended.\<close>

definition state_after :: "(error \<times> App) + App \<Rightarrow> App" where
  "state_after r = (case r of Inl (e, st) \<Rightarrow> st | Inr st \<Rightarrow> st)"

text \<open>Every preference field holds its documented default.\<close>

definition at_defaults :: "App \<Rightarrow> bool" where
  "at_defaults st =
     (isAutoRotating st = True \<and> ambientIntensity st = 0 \<and> directionalIntensity st = 2
      \<and> lightAngle st = 70 \<and> showPoints st = True \<and> pointSize st = 0.6
      \<and> rotationSpeed st = 0.3 \<and> isPropellerSpinning st = True \<and> propellerSpeed st = 15)"

subsection \<open>Selection of a hotspot\<close>

definition handlePointClick :: "PointData \<Rightarrow> App \<Rightarrow> App" where
  "handlePointClick point st = st\<lparr>activePoint := Some point\<rparr>"

definition handleCloseInfoBox :: "App \<Rightarrow> App" where
  "handleCloseInfoBox st = st\<lparr>activePoint := None\<rparr>"

text \<open>Line 311; \<open>!activePoint\<close> holds exactly when \<open>activePoint\<close> is \<open>null\<close>.\<close>

definition actualIsRotating :: "App \<Rightarrow> bool" where
  "actualIsRotating st = (isAutoRotating st \<and> \<not> js_truthy (activePoint st))"

text \<open>Line 561: the \<open>enabled\<close> property given to \<open>OrbitControls\<close>.\<close>

definition OrbitControls_enabled :: "App \<Rightarrow> bool" where
  "OrbitControls_enabled st = (\<not> js_truthy (activePoint st))"

text \<open>Line 535: the detail views the render produces.\<close>

definition rendered_InfoBoxes :: "App \<Rightarrow> PointData list" where
  "rendered_InfoBoxes st = (case activePoint st of Some point \<Rightarrow> [point] | None \<Rightarrow> [])"

datatype selection_event = MarkerClick PointData | CloseDetail

fun selection_step :: "App \<Rightarrow> selection_event \<Rightarrow> App" where
  "selection_step st (MarkerClick point) = handlePointClick point st"
| "selection_step st CloseDetail = handleCloseInfoBox st"

definition run_events :: "App \<Rightarrow> selection_event list \<Rightarrow> App" where
  "run_events st evs = foldl selection_step st evs"

section \<open>Overlay projector (InteractivePoint, src/App.tsx lines 103-143)\<close>

datatype Vector3 = Vector3 real real real

text \<open>three.js \<open>Vector3.distanceTo\<close>: the Euclidean distance.\<close>

fun distanceTo :: "Vector3 \<Rightarrow> Vector3 \<Rightarrow> real" where
  "distanceTo (Vector3 x1 y1 z1) (Vector3 x2 y2 z2) =
     sqrt ((x1 - x2)\<^sup>2 + (y1 - y2)\<^sup>2 + (z1 - z2)\<^sup>2)"

text \<open>JavaScript \<open>1 / d\<close> for \<open>d \<ge> 0\<close> followed by \<open>Math.min(_, cap)\<close>: \<open>1 / 0\<close> is
  \<open>Infinity\<close>, and the minimum of \<open>Infinity\<close> and \<open>cap\<close> is \<open>cap\<close>.\<close>

definition min_reciprocal :: "real \<Rightarrow> real \<Rightarrow> real" where
  "min_reciprocal d cap = (if d = 0 then cap else min (1 / d) cap)"

text \<open>Line 111: \<open>Math.min(1 / (distance * 0.2), 0.8) * size\<close>.\<close>

definition scaleFactor :: "real \<Rightarrow> real \<Rightarrow> real" where
  "scaleFactor distance size' = min_reciprocal (distance * 0.2) 0.8 * size'"

record Group =
  scale :: Vector3

text \<open>The per-frame callback of \<open>InteractivePoint\<close> (lines 108-114) on
  \<open>pointRef.current\<close>, which is \<open>null\<close> until the group is mounted.\<close>

definition InteractivePoint_useFrame ::
  "Vector3 \<Rightarrow> real \<times> real \<times> real \<Rightarrow> real \<Rightarrow> Group option \<Rightarrow> Group option" where
  "InteractivePoint_useFrame camera_position pos size' pointRef =
     (case pointRef of
        None \<Rightarrow> None
      | Some current \<Rightarrow>
          (let distance = distanceTo camera_position
                            (case pos of (px, py, pz) \<Rightarrow> Vector3 px py pz);
               k = scaleFactor distance size'
           in Some (current\<lparr>scale := Vector3 k k k\<rparr>)))"

section \<open>Animation drivers (Airplane, src/App.tsx lines 145-209)\<close>

text \<open>A node of the loaded model, with the Euler angles of its local rotation.\<close>

record Object3D =
  name :: string
  rotation_x :: real
  rotation_y :: real
  rotation_z :: real

text \<open>
  The loaded scene as the list of its nodes in the order three.js's
  \<open>getObjectByName\<close> visits them (the object, then its descendants depth first). A
  reference to a node is its index in this list. \<open>getObjectByName\<close> returns the first
  node with the given name, or \<open>undefined\<close>.
\<close>

fun getObjectByName :: "Object3D list \<Rightarrow> string \<Rightarrow> nat option" where
  "getObjectByName [] n = None"
| "getObjectByName (obj # rest) n =
     (if name obj = n then Some 0 else map_option Suc (getObjectByName rest n))"

text \<open>The state of \<open>Airplane\<close>: the scene, the group behind \<open>modelRef\<close> (\<open>null\<close> until
  mounted) and the cached blade references.\<close>

record Airplane =
  scene :: "Object3D list"
  modelRef :: "Object3D option"
  blades :: "nat list"

text \<open>The effect that locates the blades once the scene is loaded (lines 162-173).\<close>

definition findBlades :: "Object3D list \<Rightarrow> nat list" where
  "findBlades sc =
     (let bladeNames = [''Prop_Blade'', ''Prop_''];
          foundBlades =
            foldl (\<lambda>found n. case getObjectByName sc n of
                                Some part \<Rightarrow> found @ [part]
                              | None \<Rightarrow> found) [] bladeNames
      in foundBlades)"

definition Airplane_effect :: "Airplane \<Rightarrow> Airplane" where
  "Airplane_effect a = a\<lparr>blades := findBlades (scene a)\<rparr>"

text \<open>\<open>blade.rotation.z += delta * propellerSpeed\<close> on the node behind a reference
  (a reference obtained from the scene always points into it).\<close>

definition spin_blade :: "real \<Rightarrow> real \<Rightarrow> Object3D list \<Rightarrow> nat \<Rightarrow> Object3D list" where
  "spin_blade delta propellerSpeed' sc blade =
     (if blade < length sc
      then sc[blade := (sc ! blade)\<lparr>rotation_z := rotation_z (sc ! blade) + delta * propellerSpeed'\<rparr>]
      else sc)"

text \<open>The per-frame callback of \<open>Airplane\<close> (lines 179-191); the first four arguments
  are the props \<open>isAutoRotating\<close>, \<open>rotationSpeed\<close>, \<open>isPropellerSpinning\<close> and
  \<open>propellerSpeed\<close>.\<close>

definition Airplane_useFrame ::
  "bool \<Rightarrow> real \<Rightarrow> bool \<Rightarrow> real \<Rightarrow> real \<Rightarrow> Airplane \<Rightarrow> Airplane" where
  "Airplane_useFrame isAutoRotating' rotationSpeed' isPropellerSpinning' propellerSpeed' delta a =
     (let a1 = (if isAutoRotating' \<and> js_truthy (modelRef a)
                then a\<lparr>modelRef := map_option
                        (\<lambda>current. current\<lparr>rotation_y := rotation_y current + delta * rotationSpeed'\<rparr>)
                        (modelRef a)\<rparr>
                else a)
      in if isPropellerSpinning'
         then (if length (blades a1) > 0
               then a1\<lparr>scene := foldl (spin_blade delta propellerSpeed') (scene a1) (blades a1)\<rparr>
               else a1)
         else a1)"

section \<open>Stand-ins for the platform, for concrete instances of the theorems\<close>

text \<open>A table-driven JSON codec for the literals the viewer stores; any other text
  does not parse.\<close>

definition stub_number_texts :: "(real \<times> string) list" where
  "stub_number_texts =
     [(0, ''0''), (2, ''2''), (70, ''70''), (0.6, ''0.6''), (0.3, ''0.3''), (15, ''15''),
      (1.2, ''1.2'')]"

definition stub_JSON :: JSON where
  "stub_JSON =
     \<lparr>parse_boolean =
        (\<lambda>text. if text = ''true'' then Inr True
                else if text = ''false'' then Inr False else Inl SyntaxError),
      parse_number =
        (\<lambda>text. case map_of (map (\<lambda>(n, t). (t, n)) stub_number_texts) text of
                  Some n \<Rightarrow> Inr n | None \<Rightarrow> Inl SyntaxError),
      stringify_boolean = (\<lambda>b. if b then ''true'' else ''false''),
      stringify_number =
        (\<lambda>n. case map_of stub_number_texts n of Some t \<Rightarrow> t | None \<Rightarrow> ''null'')\<rparr>"

definition stub_storage :: Storage where
  "stub_storage =
     \<lparr>items = [''rotationSpeed'' \<mapsto> ''1.2'', ''isAutoRotating'' \<mapsto> ''false'',
               ''lightAngle'' \<mapsto> ''7O'', ''theme'' \<mapsto> ''dark''],
      getItem_error = (\<lambda>key. None),
      setItem_error = (\<lambda>key. if key = ''pointSize'' then Some QuotaExceededError else None),
      removeItem_error = (\<lambda>key. None)\<rparr>"

definition fresh_storage :: Storage where
  "fresh_storage =
     \<lparr>items = Map.empty, getItem_error = (\<lambda>key. None), setItem_error = (\<lambda>key. None),
      removeItem_error = (\<lambda>key. None)\<rparr>"

definition default_App :: "Storage \<Rightarrow> App" where
  "default_App ls =
     \<lparr>isAutoRotating = True, ambientIntensity = 0, directionalIntensity = 2, lightAngle = 70,
      activePoint = None, showPoints = True, pointSize = 0.6, rotationSpeed = 0.3,
      isPropellerSpinning = True, propellerSpeed = 15, localStorage = ls\<rparr>"

text \<open>A storage that holds a changed value under each of the nine keys and whose
  \<open>removeItem\<close> throws for the key \<open>lightAngle\<close>, and the state of a session on it.\<close>

definition failing_storage :: Storage where
  "failing_storage =
     \<lparr>items = [''isAutoRotating'' \<mapsto> ''false'', ''ambientIntensity'' \<mapsto> ''1.2'',
               ''directionalIntensity'' \<mapsto> ''1.2'', ''lightAngle'' \<mapsto> ''15'',
               ''showPoints'' \<mapsto> ''false'', ''pointSize'' \<mapsto> ''1.2'',
               ''rotationSpeed'' \<mapsto> ''1.2'', ''isPropellerSpinning'' \<mapsto> ''false'',
               ''propellerSpeed'' \<mapsto> ''2''],
      getItem_error = (\<lambda>key. None),
      setItem_error = (\<lambda>key. None),
      removeItem_error = (\<lambda>key. if key = ''lightAngle'' then Some SecurityError else None)\<rparr>"

definition failing_state :: App where
  "failing_state =
     \<lparr>isAutoRotating = False, ambientIntensity = 1.2, directionalIntensity = 1.2,
      lightAngle = 15, activePoint = None, showPoints = False, pointSize = 1.2,
      rotationSpeed = 1.2, isPropellerSpinning = False, propellerSpeed = 2,
      localStorage = failing_storage\<rparr>"

text \<open>A session with default preferences, and a small model with two blade nodes.\<close>

definition demo_state :: App where
  "demo_state = default_App fresh_storage"

definition demo_scene :: "Object3D list" where
  "demo_scene =
     [\<lparr>name = ''Scene'', rotation_x = 0, rotation_y = 0, rotation_z = 0\<rparr>,
      \<lparr>name = ''Fuselage'', rotation_x = 0, rotation_y = 0, rotation_z = 0\<rparr>,
      \<lparr>name = ''Prop_'', rotation_x = 0, rotation_y = 0, rotation_z = 1\<rparr>,
      \<lparr>name = ''Prop_Blade'', rotation_x = 0, rotation_y = 0, rotation_z = 2\<rparr>]"

definition demo_group :: Object3D where
  "demo_group = \<lparr>name = ''group'', rotation_x = 0, rotation_y = 3, rotation_z = 0\<rparr>"

definition demo_airplane :: Airplane where
  "demo_airplane = Airplane_effect \<lparr>scene = demo_scene, modelRef = Some demo_group, blades = []\<rparr>"

text \<open>Two storages agree on how the platform answers and on every entry outside the
  key set \<open>K\<close>.\<close>

definition same_outside :: "string set \<Rightarrow> Storage \<Rightarrow> Storage \<Rightarrow> bool" where
  "same_outside K ls ls' =
     (getItem_error ls' = getItem_error ls \<and> setItem_error ls' = setItem_error ls
      \<and> removeItem_error ls' = removeItem_error ls \<and> Storage.more ls' = Storage.more ls
      \<and> (\<forall>k. k \<notin> K \<longrightarrow> items ls' k = items ls k))"

section \<open>Theorems: fullscreen hook\<close>

text \<open>
  C7. On a platform exposing none of the four request methods and none of the four
  exit methods, the fullscreen toggle throws nothing, invokes no platform method, and
  leaves the hook's reported fullscreen state as it was. (The toggle in fact never
  throws on any platform: each call is guarded by the presence of its method.)
\<close>

theorem toggleFullscreen_no_api:
  "(\<forall>e. toggleFullscreen h doc \<noteq> Inl e) \<and>
   (no_fullscreen_api doc \<longrightarrow> toggleFullscreen h doc = Inr (h, None))"
  by (simp add: toggleFullscreen_def no_fullscreen_api_def invoke_def Let_def)

theorem toggleFullscreen_no_api_witness:
  "no_fullscreen_api stub_document \<and>
   toggleFullscreen \<lparr>isFullscreen = False\<rparr> stub_document = Inr (\<lparr>isFullscreen = False\<rparr>, None) \<and>
   no_fullscreen_api (stub_document\<lparr>webkitFullscreenElement := Some (Element ''html'')\<rparr>) \<and>
   toggleFullscreen \<lparr>isFullscreen = True\<rparr>
       (stub_document\<lparr>webkitFullscreenElement := Some (Element ''html'')\<rparr>)
     = Inr (\<lparr>isFullscreen = True\<rparr>, None)"
  using toggleFullscreen_no_api [of "\<lparr>isFullscreen = False\<rparr>" stub_document]
        toggleFullscreen_no_api [of "\<lparr>isFullscreen = True\<rparr>"
           "stub_document\<lparr>webkitFullscreenElement := Some (Element ''html'')\<rparr>"]
  by (simp add: no_fullscreen_api_def stub_document_def)

lemma probe_first:
  "js_or (js_or (js_or (fullscreenElement doc) (mozFullScreenElement doc))
                (webkitFullscreenElement doc)) (msFullscreenElement doc)
   = first_fullscreen_element doc"
  by (simp add: js_or_def first_fullscreen_element_def split: option.splits)

text \<open>
  C8. The fullscreen probe run when the hook is constructed and the probe run by the
  change-notification handler are the same function of the platform state: for every
  document the handler stores exactly the state the initialiser would produce, and
  both report fullscreen exactly when the first non-empty of the four accessors
  (unprefixed, Mozilla, WebKit, Microsoft, in this order) exists.
\<close>

theorem probe_init_eq_handler:
  "handleFullscreenChange doc h = useFullscreen_init doc \<and>
   isFullscreen (useFullscreen_init doc) = (first_fullscreen_element doc \<noteq> None) \<and>
   isFullscreen (handleFullscreenChange doc h) = (first_fullscreen_element doc \<noteq> None)"
  by (simp add: handleFullscreenChange_def useFullscreen_init_def probe_first js_truthy_def
        split: option.splits)

theorem probe_init_eq_handler_witness:
  "handleFullscreenChange (webkit_document\<lparr>msFullscreenElement := Some (Element ''html'')\<rparr>)
       \<lparr>isFullscreen = False\<rparr> = \<lparr>isFullscreen = True\<rparr> \<and>
   useFullscreen_init (webkit_document\<lparr>msFullscreenElement := Some (Element ''html'')\<rparr>)
     = \<lparr>isFullscreen = True\<rparr> \<and>
   useFullscreen_init webkit_document = \<lparr>isFullscreen = False\<rparr>"
proof -
  let ?doc = "webkit_document\<lparr>msFullscreenElement := Some (Element ''html'')\<rparr>"
  have a: "useFullscreen_init ?doc = \<lparr>isFullscreen = True\<rparr>"
    using probe_init_eq_handler [of ?doc "\<lparr>isFullscreen = False\<rparr>", THEN conjunct2, THEN conjunct1]
    by (simp add: first_fullscreen_element_def webkit_document_def)
  have b: "handleFullscreenChange ?doc \<lparr>isFullscreen = False\<rparr> = \<lparr>isFullscreen = True\<rparr>"
    using probe_init_eq_handler [of ?doc "\<lparr>isFullscreen = False\<rparr>", THEN conjunct1] a
    by simp
  have c: "useFullscreen_init webkit_document = \<lparr>isFullscreen = False\<rparr>"
    using probe_init_eq_handler [of webkit_document "\<lparr>isFullscreen = False\<rparr>",
            THEN conjunct2, THEN conjunct1]
    by (simp add: first_fullscreen_element_def webkit_document_def)
  show ?thesis using a b c by (intro conjI)
qed

lemma toggleFullscreen_eq:
  "toggleFullscreen h doc =
     Inr (h, if first_fullscreen_element doc = None then request_call (documentElement doc)
             else exit_call doc)"
  by (simp add: toggleFullscreen_def probe_first js_truthy_def invoke_def Let_def
        split: option.splits)

lemma request_call_family: "request_call element = Some c \<Longrightarrow> is_request c"
  by (auto split: if_splits)

lemma exit_call_family: "exit_call doc = Some c \<Longrightarrow> \<not> is_request c"
  by (auto split: if_splits)

text \<open>
  C10. Whether the toggle issues a request or an exit is decided by a fresh probe of
  the four fullscreen-element accessors at call time and not by the cached
  \<open>isFullscreen\<close>: the toggle returns the cached state untouched and invokes the first
  available request method when the probe finds no fullscreen element, the first
  available exit method otherwise; any two cached states lead to the same call; a call
  that is made is of the request family exactly when the probe found no element.
\<close>

theorem toggleFullscreen_fresh_probe:
  "toggleFullscreen h doc =
     Inr (h, if first_fullscreen_element doc = None then request_call (documentElement doc)
             else exit_call doc) \<and>
   (\<forall>h'. \<exists>c. toggleFullscreen h doc = Inr (h, c) \<and> toggleFullscreen h' doc = Inr (h', c)) \<and>
   (\<forall>c. toggleFullscreen h doc = Inr (h, Some c)
        \<longrightarrow> is_request c = (first_fullscreen_element doc = None))"
proof (intro conjI allI impI)
  show "toggleFullscreen h doc =
     Inr (h, if first_fullscreen_element doc = None then request_call (documentElement doc)
             else exit_call doc)"
    by (rule toggleFullscreen_eq)
next
  fix h'
  show "\<exists>c. toggleFullscreen h doc = Inr (h, c) \<and> toggleFullscreen h' doc = Inr (h', c)"
    by (simp add: toggleFullscreen_eq)
next
  fix c
  assume "toggleFullscreen h doc = Inr (h, Some c)"
  then show "is_request c = (first_fullscreen_element doc = None)"
    by (auto simp add: toggleFullscreen_eq split: if_splits
          dest: request_call_family exit_call_family)
qed

theorem toggleFullscreen_fresh_probe_witness:
  "first_fullscreen_element webkit_document = None \<and>
   toggleFullscreen \<lparr>isFullscreen = True\<rparr> webkit_document
     = Inr (\<lparr>isFullscreen = True\<rparr>, Some Call_webkitRequestFullscreen) \<and>
   is_request Call_webkitRequestFullscreen \<and>
   toggleFullscreen \<lparr>isFullscreen = False\<rparr>
       (webkit_document\<lparr>mozFullScreenElement := Some (Element ''html'')\<rparr>)
     = Inr (\<lparr>isFullscreen = False\<rparr>, Some Call_exitFullscreen)"
proof -
  have a: "first_fullscreen_element webkit_document = None"
    by (simp add: first_fullscreen_element_def webkit_document_def)
  have b: "toggleFullscreen \<lparr>isFullscreen = True\<rparr> webkit_document
     = Inr (\<lparr>isFullscreen = True\<rparr>, Some Call_webkitRequestFullscreen)"
    using toggleFullscreen_fresh_probe [of "\<lparr>isFullscreen = True\<rparr>" webkit_document,
            THEN conjunct1]
    by (simp add: first_fullscreen_element_def webkit_document_def)
  have c: "is_request Call_webkitRequestFullscreen"
    using toggleFullscreen_fresh_probe [of "\<lparr>isFullscreen = True\<rparr>" webkit_document,
            THEN conjunct2, THEN conjunct2, THEN spec, THEN mp, OF b] a
    by simp
  have d: "toggleFullscreen \<lparr>isFullscreen = False\<rparr>
       (webkit_document\<lparr>mozFullScreenElement := Some (Element ''html'')\<rparr>)
     = Inr (\<lparr>isFullscreen = False\<rparr>, Some Call_exitFullscreen)"
    using toggleFullscreen_fresh_probe [of "\<lparr>isFullscreen = False\<rparr>"
           "webkit_document\<lparr>mozFullScreenElement := Some (Element ''html'')\<rparr>",
            THEN conjunct1]
    by (simp add: first_fullscreen_element_def webkit_document_def)
  show ?thesis using a b c d by (intro conjI)
qed

section \<open>Theorems: preference store\<close>

lemma fst_setValue: "fst (setValue stringify key v hook) = v"
  by (simp add: setValue_def Let_def split: sum.splits)

lemma snd_setValue:
  "snd (setValue stringify key v hook) =
     (case setItem_error (snd hook) key of
        Some e \<Rightarrow> snd hook
      | None \<Rightarrow> (snd hook)\<lparr>items := (items (snd hook))(key \<mapsto> stringify v)\<rparr>)"
  by (simp add: setValue_def setItem_def Let_def split: option.splits)

lemma same_outside_refl: "same_outside K ls ls"
  by (simp add: same_outside_def)

lemma same_outside_setValue:
  "key \<in> K \<Longrightarrow> same_outside K ls ls0 \<Longrightarrow>
   same_outside K ls (snd (setValue stringify key v (old, ls0)))"
  by (auto simp add: snd_setValue same_outside_def split: option.splits)

lemma removeItems_ok:
  "\<forall>k\<in>set ks. removeItem_error ls k = None \<Longrightarrow>
   removeItems ks ls = Inr (ls\<lparr>items := (\<lambda>k. if k \<in> set ks then None else items ls k)\<rparr>)"
proof (induction ks arbitrary: ls)
  case Nil
  then show ?case by simp
next
  case (Cons a ks)
  have "removeItem ls a = Inr (ls\<lparr>items := (items ls)(a := None)\<rparr>)"
    using Cons.prems by (simp add: removeItem_def)
  moreover have "\<forall>k\<in>set ks. removeItem_error (ls\<lparr>items := (items ls)(a := None)\<rparr>) k = None"
    using Cons.prems by simp
  ultimately show ?case
    using Cons.IH [of "ls\<lparr>items := (items ls)(a := None)\<rparr>"]
    by (auto simp add: fun_eq_iff)
qed

lemma removeItems_same_outside:
  assumes "same_outside (set ks) ls ls'" and "\<forall>k\<in>set ks. removeItem_error ls k = None"
  shows "removeItems ks ls' = Inr (ls\<lparr>items := (\<lambda>k. if k \<in> set ks then None else items ls k)\<rparr>)"
proof -
  have "\<forall>k\<in>set ks. removeItem_error ls' k = None"
    using assms by (simp add: same_outside_def)
  then have "removeItems ks ls' = Inr (ls'\<lparr>items := (\<lambda>k. if k \<in> set ks then None else items ls' k)\<rparr>)"
    by (rule removeItems_ok)
  moreover have "ls'\<lparr>items := (\<lambda>k. if k \<in> set ks then None else items ls' k)\<rparr>
               = ls\<lparr>items := (\<lambda>k. if k \<in> set ks then None else items ls k)\<rparr>"
    using assms(1) by (auto simp add: same_outside_def fun_eq_iff intro!: Storage.equality)
  ultimately show ?thesis by simp
qed

lemma resetSettings_ok:
  assumes "\<forall>k\<in>set preference_keys. removeItem_error (localStorage st) k = None"
  shows "resetSettings J st =
           Inr (st\<lparr>isAutoRotating := True, ambientIntensity := 0, directionalIntensity := 2,
                   lightAngle := 70, showPoints := True, pointSize := 0.6,
                   rotationSpeed := 0.3, isPropellerSpinning := True, propellerSpeed := 15,
                   localStorage := (localStorage st)
                     \<lparr>items := (\<lambda>k. if k \<in> set preference_keys then None
                                    else items (localStorage st) k)\<rparr>\<rparr>)"
proof -
  define h1 where "h1 = setValue (stringify_boolean J) ''isAutoRotating'' True (isAutoRotating st, localStorage st)"
  define h2 where "h2 = setValue (stringify_number J) ''ambientIntensity'' 0 (ambientIntensity st, snd h1)"
  define h3 where "h3 = setValue (stringify_number J) ''directionalIntensity'' 2 (directionalIntensity st, snd h2)"
  define h4 where "h4 = setValue (stringify_number J) ''lightAngle'' 70 (lightAngle st, snd h3)"
  define h5 where "h5 = setValue (stringify_boolean J) ''showPoints'' True (showPoints st, snd h4)"
  define h6 where "h6 = setValue (stringify_number J) ''pointSize'' 0.6 (pointSize st, snd h5)"
  define h7 where "h7 = setValue (stringify_number J) ''rotationSpeed'' 0.3 (rotationSpeed st, snd h6)"
  define h8 where "h8 = setValue (stringify_boolean J) ''isPropellerSpinning'' True (isPropellerSpinning st, snd h7)"
  define h9 where "h9 = setValue (stringify_number J) ''propellerSpeed'' 15 (propellerSpeed st, snd h8)"
  note hs = h1_def h2_def h3_def h4_def h5_def h6_def h7_def h8_def h9_def
  let ?K = "set preference_keys"
  let ?ls = "localStorage st"
  have s1: "same_outside ?K ?ls (snd h1)"
    unfolding h1_def by (rule same_outside_setValue [OF _ same_outside_refl]) (simp add: preference_keys_def)
  have s2: "same_outside ?K ?ls (snd h2)"
    unfolding h2_def by (rule same_outside_setValue [OF _ s1]) (simp add: preference_keys_def)
  have s3: "same_outside ?K ?ls (snd h3)"
    unfolding h3_def by (rule same_outside_setValue [OF _ s2]) (simp add: preference_keys_def)
  have s4: "same_outside ?K ?ls (snd h4)"
    unfolding h4_def by (rule same_outside_setValue [OF _ s3]) (simp add: preference_keys_def)
  have s5: "same_outside ?K ?ls (snd h5)"
    unfolding h5_def by (rule same_outside_setValue [OF _ s4]) (simp add: preference_keys_def)
  have s6: "same_outside ?K ?ls (snd h6)"
    unfolding h6_def by (rule same_outside_setValue [OF _ s5]) (simp add: preference_keys_def)
  have s7: "same_outside ?K ?ls (snd h7)"
    unfolding h7_def by (rule same_outside_setValue [OF _ s6]) (simp add: preference_keys_def)
  have s8: "same_outside ?K ?ls (snd h8)"
    unfolding h8_def by (rule same_outside_setValue [OF _ s7]) (simp add: preference_keys_def)
  have s9: "same_outside ?K ?ls (snd h9)"
    unfolding h9_def by (rule same_outside_setValue [OF _ s8]) (simp add: preference_keys_def)
  have rem: "removeItems preference_keys (snd h9) =
               Inr (?ls\<lparr>items := (\<lambda>k. if k \<in> ?K then None else items ?ls k)\<rparr>)"
    using s9 assms by (rule removeItems_same_outside)
  have f: "fst h1 = True" "fst h2 = 0" "fst h3 = 2" "fst h4 = 70" "fst h5 = True"
          "fst h6 = 0.6" "fst h7 = 0.3" "fst h8 = True" "fst h9 = 15"
    by (simp_all add: hs fst_setValue)
  have "resetSettings J st =
          (case removeItems preference_keys (snd h9) of
             Inl (e, ls) \<Rightarrow>
               Inl (e, st\<lparr>isAutoRotating := fst h1, ambientIntensity := fst h2,
                    directionalIntensity := fst h3, lightAngle := fst h4,
                    showPoints := fst h5, pointSize := fst h6, rotationSpeed := fst h7,
                    isPropellerSpinning := fst h8, propellerSpeed := fst h9, localStorage := ls\<rparr>)
           | Inr ls \<Rightarrow>
               Inr (st\<lparr>isAutoRotating := fst h1, ambientIntensity := fst h2,
                    directionalIntensity := fst h3, lightAngle := fst h4,
                    showPoints := fst h5, pointSize := fst h6, rotationSpeed := fst h7,
                    isPropellerSpinning := fst h8, propellerSpeed := fst h9, localStorage := ls\<rparr>))"
    unfolding resetSettings_def Let_def hs preference_keys_def ..
  then show ?thesis
    by (simp add: rem f)
qed

lemma resetSettings_fields:
  "at_defaults (state_after (resetSettings J st))"
  by (simp add: resetSettings_def Let_def state_after_def at_defaults_def fst_setValue
           split: sum.splits prod.splits)

lemma useLocalStorage_init_absent:
  "items ls key = None \<Longrightarrow> useLocalStorage_init parse ls key d = d"
  by (simp add: useLocalStorage_init_def getItem_def split: option.splits)

lemma useLocalStorage_init_malformed:
  "items ls key = Some text \<Longrightarrow> parse text = Inl e \<Longrightarrow> useLocalStorage_init parse ls key d = d"
  by (simp add: useLocalStorage_init_def getItem_def split: option.splits)

lemma useLocalStorage_init_denied:
  "getItem ls key = Inl e \<Longrightarrow> useLocalStorage_init parse ls key d = d"
  by (simp add: useLocalStorage_init_def)

lemma App_init_fresh:
  "items ls = Map.empty \<Longrightarrow> App_init J ls = default_App ls"
  by (simp add: App_init_def default_App_def useLocalStorage_init_absent)

text \<open>
  C3. Round trip of a preference: after \<open>setValue key v\<close> the hook's in-memory value
  is exactly \<open>v\<close>, whether or not the write to storage threw; and when the write went
  through and the platform's JSON codec reads back what it wrote for \<open>v\<close>, hydrating
  the same key from storage returns \<open>v\<close> for any default \<open>d\<close>.
\<close>

theorem setValue_then_read:
  "fst (setValue stringify key v (old, ls)) = v \<and>
   (setItem_error ls key = None \<and> getItem_error ls key = None \<and> stringify v \<noteq> []
      \<and> parse (stringify v) = Inr v
    \<longrightarrow> useLocalStorage_init parse (snd (setValue stringify key v (old, ls))) key d = v)"
  by (simp add: fst_setValue snd_setValue useLocalStorage_init_def getItem_def)

theorem setValue_then_read_witness:
  "fst (setValue (stringify_number stub_JSON) ''pointSize'' 1.2 (0.6, stub_storage)) = 1.2 \<and>
   setItem_error stub_storage ''pointSize'' = Some QuotaExceededError \<and>
   setItem_error stub_storage ''rotationSpeed'' = None \<and>
   stringify_number stub_JSON 0.6 = ''0.6'' \<and>
   useLocalStorage_init (parse_number stub_JSON)
     (snd (setValue (stringify_number stub_JSON) ''rotationSpeed'' 0.6 (1.2, stub_storage)))
     ''rotationSpeed'' 0.3 = 0.6"
  using setValue_then_read [of "stringify_number stub_JSON" "''pointSize''" "1.2" "0.6" stub_storage]
        setValue_then_read [of "stringify_number stub_JSON" "''rotationSpeed''" "0.6" "1.2" stub_storage
                               "parse_number stub_JSON" "0.3"]
  by (simp add: stub_JSON_def stub_storage_def stub_number_texts_def)

text \<open>
  C4. Loading a preference returns the field's default, and throws nothing, when the
  persisted entry is absent, when its text fails to deserialize, and when reading the
  storage throws; a session that starts with no persisted entries has
  isAutoRotating = true, ambientIntensity = 0, directionalIntensity = 2, lightAngle = 70,
  showPoints = true, pointSize = 0.6, rotationSpeed = 0.3, isPropellerSpinning = true,
  propellerSpeed = 15.
\<close>

theorem useLocalStorage_init_default:
  "(items ls key = None \<longrightarrow> useLocalStorage_init parse ls key d = d) \<and>
   (\<forall>text e. items ls key = Some text \<and> parse text = Inl e
        \<longrightarrow> useLocalStorage_init parse ls key d = d) \<and>
   (\<forall>e. getItem ls key = Inl e \<longrightarrow> useLocalStorage_init parse ls key d = d) \<and>
   (items ls = Map.empty \<longrightarrow> App_init J ls = default_App ls)"
proof (intro conjI allI impI)
  assume "items ls key = None"
  then show "useLocalStorage_init parse ls key d = d"
    by (rule useLocalStorage_init_absent)
next
  fix t e
  assume "items ls key = Some t \<and> parse t = Inl e"
  then show "useLocalStorage_init parse ls key d = d"
    using useLocalStorage_init_malformed [of ls key t parse e d] by simp
next
  fix e
  assume "getItem ls key = Inl e"
  then show "useLocalStorage_init parse ls key d = d"
    by (rule useLocalStorage_init_denied)
next
  assume "items ls = Map.empty"
  then show "App_init J ls = default_App ls"
    by (rule App_init_fresh)
qed

theorem useLocalStorage_init_default_witness:
  "items stub_storage ''pointSize'' = None \<and>
   useLocalStorage_init (parse_number stub_JSON) stub_storage ''pointSize'' 0.6 = 0.6 \<and>
   items stub_storage ''lightAngle'' = Some ''7O'' \<and>
   parse_number stub_JSON ''7O'' = Inl SyntaxError \<and>
   useLocalStorage_init (parse_number stub_JSON) stub_storage ''lightAngle'' 70 = 70 \<and>
   items fresh_storage = Map.empty \<and>
   App_init stub_JSON fresh_storage = default_App fresh_storage \<and>
   propellerSpeed (default_App fresh_storage) = 15"
proof -
  have a: "items stub_storage ''pointSize'' = None"
    by (simp add: stub_storage_def)
  have b: "items stub_storage ''lightAngle'' = Some ''7O'' \<and> parse_number stub_JSON ''7O'' = Inl SyntaxError"
    by (simp add: stub_storage_def stub_JSON_def stub_number_texts_def)
  have c: "items fresh_storage = Map.empty"
    by (simp add: fresh_storage_def)
  note absent = useLocalStorage_init_default
     [of stub_storage "''pointSize''" "parse_number stub_JSON" "0.6", THEN conjunct1, THEN mp, OF a]
  note malformed = useLocalStorage_init_default
     [of stub_storage "''lightAngle''" "parse_number stub_JSON" "70", THEN conjunct2,
      THEN conjunct1, THEN spec, THEN spec, THEN mp, OF b]
  note fresh = useLocalStorage_init_default
     [of fresh_storage _ _ _ stub_JSON, THEN conjunct2, THEN conjunct2, THEN conjunct2,
      THEN mp, OF c]
  have d: "propellerSpeed (default_App fresh_storage) = 15"
    by (simp add: default_App_def)
  show ?thesis
    by (intro conjI a absent b [THEN conjunct1] b [THEN conjunct2] malformed c fresh d)
qed

text \<open>
  C5. Reset idempotence: from any state, \<open>resetSettings\<close> leaves every one of the nine
  preference fields at its default (whatever the storage does); when no removal
  throws, it returns normally, every one of the nine persisted keys is deleted, entries
  under other keys and the active hotspot are untouched, and a second reset returns
  the very same state.
\<close>

theorem resetSettings_idempotent:
  "at_defaults (state_after (resetSettings J st)) \<and>
   ((\<forall>k\<in>set preference_keys. removeItem_error (localStorage st) k = None) \<longrightarrow>
      (\<exists>st1. resetSettings J st = Inr st1 \<and> at_defaults st1
         \<and> (\<forall>k\<in>set preference_keys. items (localStorage st1) k = None)
         \<and> (\<forall>k. k \<notin> set preference_keys \<longrightarrow> items (localStorage st1) k = items (localStorage st) k)
         \<and> activePoint st1 = activePoint st
         \<and> resetSettings J st1 = Inr st1))"
proof (intro conjI impI)
  show "at_defaults (state_after (resetSettings J st))"
    by (rule resetSettings_fields)
next
  assume ok: "\<forall>k\<in>set preference_keys. removeItem_error (localStorage st) k = None"
  define st1 where
    "st1 = st\<lparr>isAutoRotating := True, ambientIntensity := 0, directionalIntensity := 2,
                   lightAngle := 70, showPoints := True, pointSize := 0.6,
                   rotationSpeed := 0.3, isPropellerSpinning := True, propellerSpeed := 15,
                   localStorage := (localStorage st)
                     \<lparr>items := (\<lambda>k. if k \<in> set preference_keys then None
                                    else items (localStorage st) k)\<rparr>\<rparr>"
  have first: "resetSettings J st = Inr st1"
    unfolding st1_def using ok by (rule resetSettings_ok)
  have ok1: "\<forall>k\<in>set preference_keys. removeItem_error (localStorage st1) k = None"
    using ok by (simp add: st1_def)
  have "resetSettings J st1 = Inr (st1\<lparr>isAutoRotating := True, ambientIntensity := 0, directionalIntensity := 2,
                   lightAngle := 70, showPoints := True, pointSize := 0.6,
                   rotationSpeed := 0.3, isPropellerSpinning := True, propellerSpeed := 15,
                   localStorage := (localStorage st1)
                     \<lparr>items := (\<lambda>k. if k \<in> set preference_keys then None
                                    else items (localStorage st1) k)\<rparr>\<rparr>)"
    using ok1 by (rule resetSettings_ok)
  also have "\<dots> = Inr st1"
    by (simp add: st1_def fun_eq_iff)
  finally have second: "resetSettings J st1 = Inr st1" .
  have "at_defaults st1" by (simp add: st1_def at_defaults_def)
  moreover have "\<forall>k\<in>set preference_keys. items (localStorage st1) k = None"
    by (simp add: st1_def)
  moreover have "\<forall>k. k \<notin> set preference_keys \<longrightarrow> items (localStorage st1) k = items (localStorage st) k"
    by (simp add: st1_def)
  moreover have "activePoint st1 = activePoint st" by (simp add: st1_def)
  ultimately show "\<exists>st1. resetSettings J st = Inr st1 \<and> at_defaults st1
         \<and> (\<forall>k\<in>set preference_keys. items (localStorage st1) k = None)
         \<and> (\<forall>k. k \<notin> set preference_keys \<longrightarrow> items (localStorage st1) k = items (localStorage st) k)
         \<and> activePoint st1 = activePoint st
         \<and> resetSettings J st1 = Inr st1"
    using first second by blast
qed

theorem resetSettings_idempotent_witness:
  "rotationSpeed (App_init stub_JSON stub_storage) = 1.2 \<and>
   isAutoRotating (App_init stub_JSON stub_storage) = False \<and>
   items (localStorage (App_init stub_JSON stub_storage)) ''rotationSpeed'' = Some ''1.2'' \<and>
   at_defaults (state_after (resetSettings stub_JSON (App_init stub_JSON stub_storage))) \<and>
   (\<exists>st1. resetSettings stub_JSON (App_init stub_JSON stub_storage) = Inr st1
      \<and> rotationSpeed st1 = 0.3 \<and> isAutoRotating st1 = True
      \<and> items (localStorage st1) ''rotationSpeed'' = None
      \<and> items (localStorage st1) ''theme'' = Some ''dark''
      \<and> resetSettings stub_JSON st1 = Inr st1)"
proof -
  let ?st = "App_init stub_JSON stub_storage"
  have ok: "\<forall>k\<in>set preference_keys. removeItem_error (localStorage ?st) k = None"
    by (simp add: App_init_def stub_storage_def)
  have init: "rotationSpeed ?st = 1.2" "isAutoRotating ?st = False"
    "items (localStorage ?st) ''rotationSpeed'' = Some ''1.2''"
    "items (localStorage ?st) ''theme'' = Some ''dark''"
    by (simp_all add: App_init_def useLocalStorage_init_def getItem_def stub_JSON_def
          stub_storage_def stub_number_texts_def)
  from resetSettings_idempotent [of stub_JSON ?st] ok
  obtain st1 where r: "resetSettings stub_JSON ?st = Inr st1" "at_defaults st1"
      "\<forall>k\<in>set preference_keys. items (localStorage st1) k = None"
      "\<forall>k. k \<notin> set preference_keys \<longrightarrow> items (localStorage st1) k = items (localStorage ?st) k"
      "resetSettings stub_JSON st1 = Inr st1"
    by blast
  have "items (localStorage st1) ''rotationSpeed'' = None"
    using r(3) by (simp add: preference_keys_def)
  moreover have "items (localStorage st1) ''theme'' = Some ''dark''"
    using r(4) init(4) by (simp add: preference_keys_def)
  moreover have "rotationSpeed st1 = 0.3" "isAutoRotating st1 = True"
    using r(2) by (simp_all add: at_defaults_def)
  moreover have "at_defaults (state_after (resetSettings stub_JSON ?st))"
    using r(1,2) by (simp add: state_after_def)
  ultimately show ?thesis using init r(1,5) by blast
qed

lemma removeItems_throws:
  assumes "\<forall>k\<in>set ks. removeItem_error ls k = None" and "removeItem_error ls key = Some e"
  shows "removeItems (ks @ key # rest) ls =
           Inl (e, ls\<lparr>items := (\<lambda>k. if k \<in> set ks then None else items ls k)\<rparr>)"
  using assms
proof (induction ks arbitrary: ls)
  case Nil
  then show ?case by (simp add: removeItem_def)
next
  case (Cons a ks)
  have "removeItem ls a = Inr (ls\<lparr>items := (items ls)(a := None)\<rparr>)"
    using Cons.prems by (simp add: removeItem_def)
  then show ?case
    using Cons.IH [of "ls\<lparr>items := (items ls)(a := None)\<rparr>"] Cons.prems
    by (auto simp add: fun_eq_iff)
qed

lemma setValue_written:
  "setItem_error ls key = None \<Longrightarrow>
   snd (setValue stringify key v (old, ls)) = ls\<lparr>items := (items ls)(key \<mapsto> stringify v)\<rparr>"
  by (simp add: snd_setValue)

lemma failing_storage_answers:
  "setItem_error failing_storage key = None"
  "removeItem_error failing_storage ''isAutoRotating'' = None"
  "removeItem_error failing_storage ''ambientIntensity'' = None"
  "removeItem_error failing_storage ''directionalIntensity'' = None"
  "removeItem_error failing_storage ''lightAngle'' = Some SecurityError"
  by (simp_all add: failing_storage_def)

lemma resetSettings_written:
  assumes "\<forall>k. setItem_error (localStorage st) k = None"
  shows "resetSettings J st =
     (case removeItems preference_keys
             ((localStorage st)\<lparr>items := (items (localStorage st))
                (''isAutoRotating'' \<mapsto> stringify_boolean J True,
                 ''ambientIntensity'' \<mapsto> stringify_number J 0,
                 ''directionalIntensity'' \<mapsto> stringify_number J 2,
                 ''lightAngle'' \<mapsto> stringify_number J 70,
                 ''showPoints'' \<mapsto> stringify_boolean J True,
                 ''pointSize'' \<mapsto> stringify_number J 0.6,
                 ''rotationSpeed'' \<mapsto> stringify_number J 0.3,
                 ''isPropellerSpinning'' \<mapsto> stringify_boolean J True,
                 ''propellerSpeed'' \<mapsto> stringify_number J 15)\<rparr>) of
        Inl (e, ls) \<Rightarrow> Inl (e, default_App ls\<lparr>activePoint := activePoint st\<rparr>)
      | Inr ls \<Rightarrow> Inr (default_App ls\<lparr>activePoint := activePoint st\<rparr>))"
proof -
  define h1 where "h1 = setValue (stringify_boolean J) ''isAutoRotating'' True (isAutoRotating st, localStorage st)"
  define h2 where "h2 = setValue (stringify_number J) ''ambientIntensity'' 0 (ambientIntensity st, snd h1)"
  define h3 where "h3 = setValue (stringify_number J) ''directionalIntensity'' 2 (directionalIntensity st, snd h2)"
  define h4 where "h4 = setValue (stringify_number J) ''lightAngle'' 70 (lightAngle st, snd h3)"
  define h5 where "h5 = setValue (stringify_boolean J) ''showPoints'' True (showPoints st, snd h4)"
  define h6 where "h6 = setValue (stringify_number J) ''pointSize'' 0.6 (pointSize st, snd h5)"
  define h7 where "h7 = setValue (stringify_number J) ''rotationSpeed'' 0.3 (rotationSpeed st, snd h6)"
  define h8 where "h8 = setValue (stringify_boolean J) ''isPropellerSpinning'' True (isPropellerSpinning st, snd h7)"
  define h9 where "h9 = setValue (stringify_number J) ''propellerSpeed'' 15 (propellerSpeed st, snd h8)"
  note hs = h1_def h2_def h3_def h4_def h5_def h6_def h7_def h8_def h9_def
  let ?ls = "localStorage st"
  have s1: "snd h1 = ?ls\<lparr>items := (items ?ls)(''isAutoRotating'' \<mapsto> stringify_boolean J True)\<rparr>"
    by (simp add: h1_def setValue_written assms)
  have s2: "snd h2 = ?ls\<lparr>items := (items ?ls)(''isAutoRotating'' \<mapsto> stringify_boolean J True,
                 ''ambientIntensity'' \<mapsto> stringify_number J 0)\<rparr>"
    by (simp add: h2_def s1 setValue_written assms)
  have s3: "snd h3 = ?ls\<lparr>items := (items ?ls)(''isAutoRotating'' \<mapsto> stringify_boolean J True,
                 ''ambientIntensity'' \<mapsto> stringify_number J 0,
                 ''directionalIntensity'' \<mapsto> stringify_number J 2)\<rparr>"
    by (simp add: h3_def s2 setValue_written assms)
  have s4: "snd h4 = ?ls\<lparr>items := (items ?ls)(''isAutoRotating'' \<mapsto> stringify_boolean J True,
                 ''ambientIntensity'' \<mapsto> stringify_number J 0,
                 ''directionalIntensity'' \<mapsto> stringify_number J 2,
                 ''lightAngle'' \<mapsto> stringify_number J 70)\<rparr>"
    by (simp add: h4_def s3 setValue_written assms)
  have s5: "snd h5 = ?ls\<lparr>items := (items ?ls)(''isAutoRotating'' \<mapsto> stringify_boolean J True,
                 ''ambientIntensity'' \<mapsto> stringify_number J 0,
                 ''directionalIntensity'' \<mapsto> stringify_number J 2,
                 ''lightAngle'' \<mapsto> stringify_number J 70,
                 ''showPoints'' \<mapsto> stringify_boolean J True)\<rparr>"
    by (simp add: h5_def s4 setValue_written assms)
  have s6: "snd h6 = ?ls\<lparr>items := (items ?ls)(''isAutoRotating'' \<mapsto> stringify_boolean J True,
                 ''ambientIntensity'' \<mapsto> stringify_number J 0,
                 ''directionalIntensity'' \<mapsto> stringify_number J 2,
                 ''lightAngle'' \<mapsto> stringify_number J 70,
                 ''showPoints'' \<mapsto> stringify_boolean J True,
                 ''pointSize'' \<mapsto> stringify_number J 0.6)\<rparr>"
    by (simp add: h6_def s5 setValue_written assms)
  have s7: "snd h7 = ?ls\<lparr>items := (items ?ls)(''isAutoRotating'' \<mapsto> stringify_boolean J True,
                 ''ambientIntensity'' \<mapsto> stringify_number J 0,
                 ''directionalIntensity'' \<mapsto> stringify_number J 2,
                 ''lightAngle'' \<mapsto> stringify_number J 70,
                 ''showPoints'' \<mapsto> stringify_boolean J True,
                 ''pointSize'' \<mapsto> stringify_number J 0.6,
                 ''rotationSpeed'' \<mapsto> stringify_number J 0.3)\<rparr>"
    by (simp add: h7_def s6 setValue_written assms)
  have s8: "snd h8 = ?ls\<lparr>items := (items ?ls)(''isAutoRotating'' \<mapsto> stringify_boolean J True,
                 ''ambientIntensity'' \<mapsto> stringify_number J 0,
                 ''directionalIntensity'' \<mapsto> stringify_number J 2,
                 ''lightAngle'' \<mapsto> stringify_number J 70,
                 ''showPoints'' \<mapsto> stringify_boolean J True,
                 ''pointSize'' \<mapsto> stringify_number J 0.6,
                 ''rotationSpeed'' \<mapsto> stringify_number J 0.3,
                 ''isPropellerSpinning'' \<mapsto> stringify_boolean J True)\<rparr>"
    by (simp add: h8_def s7 setValue_written assms)
  have s9: "snd h9 = ?ls\<lparr>items := (items ?ls)(''isAutoRotating'' \<mapsto> stringify_boolean J True,
                 ''ambientIntensity'' \<mapsto> stringify_number J 0,
                 ''directionalIntensity'' \<mapsto> stringify_number J 2,
                 ''lightAngle'' \<mapsto> stringify_number J 70,
                 ''showPoints'' \<mapsto> stringify_boolean J True,
                 ''pointSize'' \<mapsto> stringify_number J 0.6,
                 ''rotationSpeed'' \<mapsto> stringify_number J 0.3,
                 ''isPropellerSpinning'' \<mapsto> stringify_boolean J True,
                 ''propellerSpeed'' \<mapsto> stringify_number J 15)\<rparr>"
    by (simp add: h9_def s8 setValue_written assms)
  have f: "fst h1 = True" "fst h2 = 0" "fst h3 = 2" "fst h4 = 70" "fst h5 = True"
          "fst h6 = 0.6" "fst h7 = 0.3" "fst h8 = True" "fst h9 = 15"
    by (simp_all add: hs fst_setValue)
  have "resetSettings J st =
          (case removeItems preference_keys (snd h9) of
             Inl (e, ls) \<Rightarrow>
               Inl (e, st\<lparr>isAutoRotating := fst h1, ambientIntensity := fst h2,
                    directionalIntensity := fst h3, lightAngle := fst h4,
                    showPoints := fst h5, pointSize := fst h6, rotationSpeed := fst h7,
                    isPropellerSpinning := fst h8, propellerSpeed := fst h9, localStorage := ls\<rparr>)
           | Inr ls \<Rightarrow>
               Inr (st\<lparr>isAutoRotating := fst h1, ambientIntensity := fst h2,
                    directionalIntensity := fst h3, lightAngle := fst h4,
                    showPoints := fst h5, pointSize := fst h6, rotationSpeed := fst h7,
                    isPropellerSpinning := fst h8, propellerSpeed := fst h9, localStorage := ls\<rparr>))"
    unfolding resetSettings_def Let_def hs preference_keys_def ..
  also have "\<dots> = (case removeItems preference_keys (snd h9) of
        Inl (e, ls) \<Rightarrow> Inl (e, default_App ls\<lparr>activePoint := activePoint st\<rparr>)
      | Inr ls \<Rightarrow> Inr (default_App ls\<lparr>activePoint := activePoint st\<rparr>))"
    by (simp add: f default_App_def split: sum.splits prod.splits)
  finally show ?thesis
    unfolding s9 .
qed

text \<open>
  C6. Reset failure isolation, evaluated where the removal of one key throws: with
  \<open>removeItem\<close> throwing for \<open>lightAngle\<close> only, \<open>resetSettings\<close> ends with that
  exception; the nine fields are at their defaults and the three keys before
  \<open>lightAngle\<close> are deleted, but \<open>lightAngle\<close> and the five keys after it are still
  persisted: their removals never ran.
\<close>

theorem resetSettings_removal_throws:
  "\<exists>st'. resetSettings stub_JSON failing_state = Inl (SecurityError, st')
      \<and> at_defaults st'
      \<and> items (localStorage st') ''isAutoRotating'' = None
      \<and> items (localStorage st') ''ambientIntensity'' = None
      \<and> items (localStorage st') ''directionalIntensity'' = None
      \<and> items (localStorage st') ''lightAngle'' = Some ''70''
      \<and> items (localStorage st') ''showPoints'' = Some ''true''
      \<and> items (localStorage st') ''pointSize'' = Some ''0.6''
      \<and> items (localStorage st') ''rotationSpeed'' = Some ''0.3''
      \<and> items (localStorage st') ''isPropellerSpinning'' = Some ''true''
      \<and> items (localStorage st') ''propellerSpeed'' = Some ''15''"
proof -
  define written where
    "written = (localStorage failing_state)\<lparr>items := (items (localStorage failing_state))
                (''isAutoRotating'' \<mapsto> stringify_boolean stub_JSON True,
                 ''ambientIntensity'' \<mapsto> stringify_number stub_JSON 0,
                 ''directionalIntensity'' \<mapsto> stringify_number stub_JSON 2,
                 ''lightAngle'' \<mapsto> stringify_number stub_JSON 70,
                 ''showPoints'' \<mapsto> stringify_boolean stub_JSON True,
                 ''pointSize'' \<mapsto> stringify_number stub_JSON 0.6,
                 ''rotationSpeed'' \<mapsto> stringify_number stub_JSON 0.3,
                 ''isPropellerSpinning'' \<mapsto> stringify_boolean stub_JSON True,
                 ''propellerSpeed'' \<mapsto> stringify_number stub_JSON 15)\<rparr>"
  define left where
    "left = written\<lparr>items := (\<lambda>k. if k \<in> set [''isAutoRotating'', ''ambientIntensity'', ''directionalIntensity'']
                                  then None else items written k)\<rparr>"
  have keys: "preference_keys = [''isAutoRotating'', ''ambientIntensity'', ''directionalIntensity'']
               @ ''lightAngle'' # [''showPoints'', ''pointSize'', ''rotationSpeed'',
                   ''isPropellerSpinning'', ''propellerSpeed'']"
    by (simp add: preference_keys_def)
  have rem: "removeItems preference_keys written = Inl (SecurityError, left)"
    unfolding left_def keys
    by (rule removeItems_throws)
       (simp_all add: written_def failing_state_def failing_storage_answers)
  have "\<forall>k. setItem_error (localStorage failing_state) k = None"
    by (simp add: failing_state_def failing_storage_answers)
  then have "resetSettings stub_JSON failing_state =
     (case removeItems preference_keys written of
        Inl (e, ls) \<Rightarrow> Inl (e, default_App ls\<lparr>activePoint := activePoint failing_state\<rparr>)
      | Inr ls \<Rightarrow> Inr (default_App ls\<lparr>activePoint := activePoint failing_state\<rparr>))"
    unfolding written_def by (rule resetSettings_written)
  then have run: "resetSettings stub_JSON failing_state =
          Inl (SecurityError, default_App left\<lparr>activePoint := activePoint failing_state\<rparr>)"
    by (simp add: rem)
  have "at_defaults (default_App left\<lparr>activePoint := activePoint failing_state\<rparr>)"
    by (simp add: at_defaults_def default_App_def)
  moreover have "items left ''isAutoRotating'' = None" "items left ''ambientIntensity'' = None"
     "items left ''directionalIntensity'' = None" "items left ''lightAngle'' = Some ''70''"
     "items left ''showPoints'' = Some ''true''" "items left ''pointSize'' = Some ''0.6''"
     "items left ''rotationSpeed'' = Some ''0.3''" "items left ''isPropellerSpinning'' = Some ''true''"
     "items left ''propellerSpeed'' = Some ''15''"
    by (simp_all add: left_def written_def stub_JSON_def stub_number_texts_def)
  ultimately show ?thesis
    using run by (simp add: default_App_def)
qed

section \<open>Theorems: selection of a hotspot\<close>

lemma run_events_append:
  "run_events st (evs @ [ev]) = selection_step (run_events st evs) ev"
  by (simp add: run_events_def)

lemma run_events_prefs:
  "isAutoRotating (run_events st evs) = isAutoRotating st"
proof (induction evs rule: rev_induct)
  case Nil
  then show ?case by (simp add: run_events_def)
next
  case (snoc ev evs)
  then show ?case
    by (cases ev) (simp_all add: run_events_append handlePointClick_def handleCloseInfoBox_def)
qed

lemma run_events_active:
  "activePoint (run_events st evs) =
     (if evs = [] then activePoint st
      else (case last evs of MarkerClick point \<Rightarrow> Some point | CloseDetail \<Rightarrow> None))"
proof (cases evs rule: rev_cases)
  case Nil
  then show ?thesis by (simp add: run_events_def)
next
  case (snoc evs' ev)
  then show ?thesis
    by (cases ev) (simp_all add: run_events_append handlePointClick_def handleCloseInfoBox_def)
qed

lemma Airplane_useFrame_yaw:
  "modelRef (Airplane_useFrame rot rs spin sp delta a) =
     (if rot then map_option (\<lambda>g. g\<lparr>rotation_y := rotation_y g + delta * rs\<rparr>) (modelRef a)
      else modelRef a)"
  by (cases "modelRef a") (simp_all add: Airplane_useFrame_def Let_def js_truthy_def)

text \<open>
  C2. After any sequence of marker clicks and closes, at most one detail view is
  rendered (the active hotspot is that of the last click, or none after a close), the
  auto-rotate preference is what it was, whole-model auto-rotation is enabled if and
  only if that preference is true and no hotspot is active, orbit control is enabled
  if and only if no hotspot is active, and closing the detail view makes rotation follow
  the preference again and enables orbiting. The flag is the one the model's
  per-frame callback receives: the yaw of the mounted model advances by
  \<open>delta * rotationSpeed\<close> in a frame exactly when the preference is true and no
  hotspot is active.
\<close>

theorem selection_exclusive:
  "length (rendered_InfoBoxes (run_events st evs)) \<le> 1 \<and>
   activePoint (run_events st evs) =
     (if evs = [] then activePoint st
      else (case last evs of MarkerClick point \<Rightarrow> Some point | CloseDetail \<Rightarrow> None)) \<and>
   isAutoRotating (run_events st evs) = isAutoRotating st \<and>
   actualIsRotating (run_events st evs)
     = (isAutoRotating st \<and> activePoint (run_events st evs) = None) \<and>
   OrbitControls_enabled (run_events st evs) = (activePoint (run_events st evs) = None) \<and>
   actualIsRotating (handleCloseInfoBox (run_events st evs)) = isAutoRotating st \<and>
   OrbitControls_enabled (handleCloseInfoBox (run_events st evs)) = True \<and>
   modelRef (Airplane_useFrame (actualIsRotating (run_events st evs)) rs spin sp delta a) =
     (if isAutoRotating st \<and> activePoint (run_events st evs) = None
      then map_option (\<lambda>g. g\<lparr>rotation_y := rotation_y g + delta * rs\<rparr>) (modelRef a)
      else modelRef a)"
proof -
  let ?st = "run_events st evs"
  have pref: "isAutoRotating ?st = isAutoRotating st"
    by (rule run_events_prefs)
  have "length (rendered_InfoBoxes ?st) \<le> 1"
    by (simp add: rendered_InfoBoxes_def split: option.splits)
  moreover have "actualIsRotating ?st = (isAutoRotating st \<and> activePoint ?st = None)"
    by (simp add: actualIsRotating_def js_truthy_def pref split: option.splits)
  moreover have "OrbitControls_enabled ?st = (activePoint ?st = None)"
    by (simp add: OrbitControls_enabled_def js_truthy_def split: option.splits)
  moreover have "actualIsRotating (handleCloseInfoBox ?st) = isAutoRotating st"
    by (simp add: actualIsRotating_def handleCloseInfoBox_def js_truthy_def pref)
  moreover have "OrbitControls_enabled (handleCloseInfoBox ?st) = True"
    by (simp add: OrbitControls_enabled_def handleCloseInfoBox_def js_truthy_def)
  moreover have "modelRef (Airplane_useFrame (actualIsRotating ?st) rs spin sp delta a) =
     (if isAutoRotating st \<and> activePoint ?st = None
      then map_option (\<lambda>g. g\<lparr>rotation_y := rotation_y g + delta * rs\<rparr>) (modelRef a)
      else modelRef a)"
    by (simp add: Airplane_useFrame_yaw actualIsRotating_def js_truthy_def pref
          split: option.splits)
  ultimately show ?thesis
    using pref run_events_active [of st evs] by (intro conjI)
qed

theorem selection_exclusive_witness:
  "activePoint (run_events demo_state
       [MarkerClick (pointsData ! 0), MarkerClick (pointsData ! 1)]) = Some (pointsData ! 1) \<and>
   point_id (pointsData ! 1) = 2 \<and>
   length (rendered_InfoBoxes (run_events demo_state
       [MarkerClick (pointsData ! 0), MarkerClick (pointsData ! 1)])) \<le> 1 \<and>
   \<not> actualIsRotating (run_events demo_state
       [MarkerClick (pointsData ! 0), MarkerClick (pointsData ! 1)]) \<and>
   \<not> OrbitControls_enabled (run_events demo_state
       [MarkerClick (pointsData ! 0), MarkerClick (pointsData ! 1)]) \<and>
   actualIsRotating (run_events demo_state
       [MarkerClick (pointsData ! 0), MarkerClick (pointsData ! 1), CloseDetail]) \<and>
   OrbitControls_enabled (run_events demo_state
       [MarkerClick (pointsData ! 0), MarkerClick (pointsData ! 1), CloseDetail]) \<and>
   modelRef (Airplane_useFrame (actualIsRotating (run_events demo_state
       [MarkerClick (pointsData ! 0), MarkerClick (pointsData ! 1)])) 0.3 True 15 0.1 demo_airplane)
     = Some demo_group"
proof -
  let ?opened = "[MarkerClick (pointsData ! 0), MarkerClick (pointsData ! 1)]"
  let ?closed = "[MarkerClick (pointsData ! 0), MarkerClick (pointsData ! 1), CloseDetail]"
  note t = selection_exclusive [of demo_state ?opened "0.3" True 15 "0.1" demo_airplane]
  note u = selection_exclusive [of demo_state ?closed "0.3" True 15 "0.1" demo_airplane]
  have pref: "isAutoRotating demo_state"
    by (simp add: demo_state_def default_App_def)
  have mounted: "modelRef demo_airplane = Some demo_group"
    by (simp add: demo_airplane_def Airplane_effect_def)
  have a: "activePoint (run_events demo_state ?opened) = Some (pointsData ! 1)"
    using t [THEN conjunct2, THEN conjunct1] by simp
  have b: "activePoint (run_events demo_state ?closed) = None"
    using u [THEN conjunct2, THEN conjunct1] by simp
  have c: "point_id (pointsData ! 1) = 2"
    by (simp add: pointsData_def)
  have d: "length (rendered_InfoBoxes (run_events demo_state ?opened)) \<le> 1"
    by (rule t [THEN conjunct1])
  have e: "\<not> actualIsRotating (run_events demo_state ?opened)"
    using t [THEN conjunct2, THEN conjunct2, THEN conjunct2, THEN conjunct1] a by simp
  have f: "\<not> OrbitControls_enabled (run_events demo_state ?opened)"
    using t [THEN conjunct2, THEN conjunct2, THEN conjunct2, THEN conjunct2, THEN conjunct1] a
    by simp
  have g: "actualIsRotating (run_events demo_state ?closed)"
    using u [THEN conjunct2, THEN conjunct2, THEN conjunct2, THEN conjunct1] b pref by simp
  have h: "OrbitControls_enabled (run_events demo_state ?closed)"
    using u [THEN conjunct2, THEN conjunct2, THEN conjunct2, THEN conjunct2, THEN conjunct1] b
    by simp
  have i: "modelRef (Airplane_useFrame (actualIsRotating (run_events demo_state ?opened))
               0.3 True 15 0.1 demo_airplane) = Some demo_group"
    using t [THEN conjunct2, THEN conjunct2, THEN conjunct2, THEN conjunct2, THEN conjunct2,
             THEN conjunct2, THEN conjunct2] a mounted
    by simp
  show ?thesis
    using a c d e f g h i by (intro conjI)
qed

section \<open>Theorems: overlay projector\<close>

lemma min_reciprocal_antimono:
  assumes "0 \<le> d1" "d1 \<le> d2" "0 < cap"
  shows "min_reciprocal d2 cap \<le> min_reciprocal d1 cap"
proof (cases "d1 = 0")
  case True
  then show ?thesis by (simp add: min_reciprocal_def)
next
  case False
  then have "0 < d1" "0 < d2" using assms by simp_all
  then have "1 / d2 \<le> 1 / d1" using assms(2) by (simp add: frac_le)
  then show ?thesis using \<open>0 < d1\<close> \<open>0 < d2\<close> by (simp add: min_reciprocal_def min_def)
qed

lemma min_reciprocal_nonneg:
  "0 \<le> d \<Longrightarrow> 0 \<le> cap \<Longrightarrow> 0 \<le> min_reciprocal d cap"
  by (simp add: min_reciprocal_def)

text \<open>
  C1. For every camera-to-hotspot distance \<open>d > 0\<close> and size preference \<open>s\<close> the marker
  scale is \<open>min (1 / (d * 0.2)) 0.8 * s\<close>; for \<open>s \<ge> 0\<close> it is never negative and it does not
  grow when the distance grows; each frame the mounted marker's three scale components
  are set to this value at the Euclidean distance from the camera to the hotspot.
\<close>

theorem scaleFactor_formula:
  "(0 < d \<longrightarrow> scaleFactor d s = min (1 / (d * 0.2)) 0.8 * s) \<and>
   (0 \<le> d \<and> 0 \<le> s \<longrightarrow> 0 \<le> scaleFactor d s) \<and>
   (0 \<le> d \<and> d \<le> d' \<and> 0 \<le> s \<longrightarrow> scaleFactor d' s \<le> scaleFactor d s) \<and>
   InteractivePoint_useFrame cam (px, py, pz) s (Some g) =
     Some (g\<lparr>scale := Vector3 (scaleFactor (distanceTo cam (Vector3 px py pz)) s)
                               (scaleFactor (distanceTo cam (Vector3 px py pz)) s)
                               (scaleFactor (distanceTo cam (Vector3 px py pz)) s)\<rparr>) \<and>
   0 \<le> distanceTo cam (Vector3 px py pz)"
proof (intro conjI impI)
  assume "0 < d"
  then show "scaleFactor d s = min (1 / (d * 0.2)) 0.8 * s"
    by (simp add: scaleFactor_def min_reciprocal_def)
next
  assume "0 \<le> d \<and> 0 \<le> s"
  then show "0 \<le> scaleFactor d s"
    unfolding scaleFactor_def
    by (intro mult_nonneg_nonneg min_reciprocal_nonneg) simp_all
next
  assume a: "0 \<le> d \<and> d \<le> d' \<and> 0 \<le> s"
  then have "min_reciprocal (d' * 0.2) 0.8 \<le> min_reciprocal (d * 0.2) 0.8"
    by (intro min_reciprocal_antimono) simp_all
  then show "scaleFactor d' s \<le> scaleFactor d s"
    unfolding scaleFactor_def using a by (simp add: mult_right_mono)
next
  show "InteractivePoint_useFrame cam (px, py, pz) s (Some g) =
     Some (g\<lparr>scale := Vector3 (scaleFactor (distanceTo cam (Vector3 px py pz)) s)
                               (scaleFactor (distanceTo cam (Vector3 px py pz)) s)
                               (scaleFactor (distanceTo cam (Vector3 px py pz)) s)\<rparr>)"
    by (simp add: InteractivePoint_useFrame_def Let_def)
next
  show "0 \<le> distanceTo cam (Vector3 px py pz)"
    by (cases cam) simp
qed

lemma distance_example: "distanceTo (Vector3 0 4 10) (Vector3 0 4 0) = 10"
  by simp

theorem scaleFactor_formula_witness:
  "scaleFactor 10 0.6 = 0.3 \<and> scaleFactor 5 0.6 = 0.48 \<and> scaleFactor 2 0.6 = 0.48 \<and>
   0 \<le> scaleFactor 5 0.6 \<and> scaleFactor 10 0.6 \<le> scaleFactor 5 0.6 \<and>
   InteractivePoint_useFrame (Vector3 0 4 10) (0, 4, 0) 0.6 (Some \<lparr>scale = Vector3 0.6 0.6 0.6\<rparr>)
     = Some \<lparr>scale = Vector3 0.3 0.3 0.3\<rparr>"
proof -
  note t = scaleFactor_formula [of 5 "0.6" 10 "Vector3 0 4 10" 0 4 0 "\<lparr>scale = Vector3 0.6 0.6 0.6\<rparr>"]
  have a: "scaleFactor 10 0.6 = 0.3"
    using scaleFactor_formula [of 10 "0.6", THEN conjunct1] by simp
  have b: "scaleFactor 5 0.6 = 0.48"
    using t [THEN conjunct1] by simp
  have c: "scaleFactor 2 0.6 = 0.48"
    using scaleFactor_formula [of 2 "0.6", THEN conjunct1] by simp
  have d: "0 \<le> scaleFactor 5 0.6"
    using t [THEN conjunct2, THEN conjunct1] by simp
  have e: "scaleFactor 10 0.6 \<le> scaleFactor 5 0.6"
    using t [THEN conjunct2, THEN conjunct2, THEN conjunct1] by simp
  have f: "InteractivePoint_useFrame (Vector3 0 4 10) (0, 4, 0) 0.6 (Some \<lparr>scale = Vector3 0.6 0.6 0.6\<rparr>)
     = Some \<lparr>scale = Vector3 0.3 0.3 0.3\<rparr>"
    using t [THEN conjunct2, THEN conjunct2, THEN conjunct2, THEN conjunct1] a
    by (simp only: distance_example) simp
  show ?thesis using a b c d e f by (intro conjI)
qed

section \<open>Theorems: propeller driver\<close>

lemma getObjectByName_Some:
  "getObjectByName sc n = Some i \<Longrightarrow> i < length sc \<and> name (sc ! i) = n"
proof (induction sc arbitrary: i)
  case Nil
  then show ?case by simp
next
  case (Cons obj rest)
  then show ?case by (auto split: if_splits)
qed

lemma findBlades_cases:
  "findBlades sc =
     (case getObjectByName sc ''Prop_Blade'' of
        None \<Rightarrow> (case getObjectByName sc ''Prop_'' of None \<Rightarrow> [] | Some j \<Rightarrow> [j])
      | Some i \<Rightarrow> (case getObjectByName sc ''Prop_'' of None \<Rightarrow> [i] | Some j \<Rightarrow> [i, j]))"
  by (simp add: findBlades_def split: option.splits)

lemma findBlades_distinct: "distinct (findBlades sc)"
proof -
  have "i \<noteq> j" if "getObjectByName sc ''Prop_Blade'' = Some i" "getObjectByName sc ''Prop_'' = Some j" for i j
  proof
    assume "i = j"
    with getObjectByName_Some [OF that(1)] getObjectByName_Some [OF that(2)]
    have "''Prop_Blade'' = ''Prop_''" by simp
    then show False by simp
  qed
  then show ?thesis
    by (auto simp add: findBlades_cases split: option.splits)
qed

lemma findBlades_in_range: "i \<in> set (findBlades sc) \<Longrightarrow> i < length sc"
  by (auto simp add: findBlades_cases split: option.splits
        dest: getObjectByName_Some getObjectByName_Some [OF sym])

lemma findBlades_names:
  "i \<in> set (findBlades sc) \<Longrightarrow> name (sc ! i) = ''Prop_Blade'' \<or> name (sc ! i) = ''Prop_''"
  by (auto simp add: findBlades_cases split: option.splits
        dest: getObjectByName_Some getObjectByName_Some [OF sym])

lemma length_spin_blade [simp]: "length (spin_blade delta sp sc b) = length sc"
  by (simp add: spin_blade_def)

lemma length_spin_blades [simp]: "length (foldl (spin_blade delta sp) sc bs) = length sc"
  by (induction bs arbitrary: sc) simp_all

lemma spin_blades_nth:
  "distinct bs \<Longrightarrow> i < length sc \<Longrightarrow>
   foldl (spin_blade delta sp) sc bs ! i =
     (if i \<in> set bs then (sc ! i)\<lparr>rotation_z := rotation_z (sc ! i) + delta * sp\<rparr> else sc ! i)"
proof (induction bs arbitrary: sc)
  case Nil
  then show ?case by simp
next
  case (Cons b bs)
  have len: "i < length (spin_blade delta sp sc b)" using Cons.prems by simp
  have d: "distinct bs" "b \<notin> set bs" using Cons.prems by simp_all
  show ?case
    using Cons.IH [OF d(1) len] d(2) Cons.prems(2)
    by (auto simp add: spin_blade_def nth_list_update)
qed

text \<open>
  C9. Each frame, when propeller spin is enabled and the blades are those the
  fixed-name lookup found (nodes of the scene named \<open>Prop_Blade\<close> or \<open>Prop_\<close>), the
  roll angle of every blade node grows by
  \<open>propellerSpeed * delta\<close> and no other node changes; the scene after the frame is the
  same whether the model's auto-rotation flag is on or off; with no blade found, or
  with spin disabled, the frame leaves the scene as it was. The callback is total: it
  raises nothing.
\<close>

theorem propeller_driver:
  "(isPropellerSpinning' \<and> a = Airplane_effect a0 \<longrightarrow>
      (\<forall>i \<in> set (blades a). i < length (scene a)
          \<and> (name (scene a ! i) = ''Prop_Blade'' \<or> name (scene a ! i) = ''Prop_'')) \<and>
      length (scene (Airplane_useFrame rot rs isPropellerSpinning' sp delta a)) = length (scene a) \<and>
      (\<forall>i < length (scene a).
         scene (Airplane_useFrame rot rs isPropellerSpinning' sp delta a) ! i =
           (if i \<in> set (blades a)
            then (scene a ! i)\<lparr>rotation_z := rotation_z (scene a ! i) + delta * sp\<rparr>
            else scene a ! i))) \<and>
   scene (Airplane_useFrame True rs spin sp delta a) = scene (Airplane_useFrame False rs spin sp delta a) \<and>
   (blades a = [] \<longrightarrow> scene (Airplane_useFrame rot rs spin sp delta a) = scene a) \<and>
   (\<not> spin \<longrightarrow> scene (Airplane_useFrame rot rs spin sp delta a) = scene a) \<and>
   blades (Airplane_useFrame rot rs spin sp delta a) = blades a"
proof (intro conjI impI allI)
  assume h: "isPropellerSpinning' \<and> a = Airplane_effect a0"
  then have b: "blades a = findBlades (scene a)"
    by (simp add: Airplane_effect_def)
  show "\<forall>i \<in> set (blades a). i < length (scene a)
          \<and> (name (scene a ! i) = ''Prop_Blade'' \<or> name (scene a ! i) = ''Prop_'')"
    unfolding b using findBlades_in_range findBlades_names by blast
  show "length (scene (Airplane_useFrame rot rs isPropellerSpinning' sp delta a)) = length (scene a)"
    by (simp add: Airplane_useFrame_def Let_def)
  fix i
  assume i: "i < length (scene a)"
  have "distinct (blades a)" unfolding b by (rule findBlades_distinct)
  then have "foldl (spin_blade delta sp) (scene a) (blades a) ! i =
     (if i \<in> set (blades a) then (scene a ! i)\<lparr>rotation_z := rotation_z (scene a ! i) + delta * sp\<rparr>
      else scene a ! i)"
    using i by (rule spin_blades_nth)
  then show "scene (Airplane_useFrame rot rs isPropellerSpinning' sp delta a) ! i =
           (if i \<in> set (blades a)
            then (scene a ! i)\<lparr>rotation_z := rotation_z (scene a ! i) + delta * sp\<rparr>
            else scene a ! i)"
    using h by (cases "blades a") (simp_all add: Airplane_useFrame_def Let_def)
next
  show "scene (Airplane_useFrame True rs spin sp delta a) = scene (Airplane_useFrame False rs spin sp delta a)"
    by (simp add: Airplane_useFrame_def Let_def)
next
  assume "blades a = []"
  then show "scene (Airplane_useFrame rot rs spin sp delta a) = scene a"
    by (simp add: Airplane_useFrame_def Let_def)
next
  assume "\<not> spin"
  then show "scene (Airplane_useFrame rot rs spin sp delta a) = scene a"
    by (simp add: Airplane_useFrame_def Let_def)
next
  show "blades (Airplane_useFrame rot rs spin sp delta a) = blades a"
    by (simp add: Airplane_useFrame_def Let_def)
qed

lemma demo_blades: "findBlades demo_scene = [3, 2]"
  by (simp add: findBlades_def demo_scene_def)

theorem propeller_driver_witness:
  "blades demo_airplane = [3, 2] \<and>
   rotation_z (scene (Airplane_useFrame False 0.3 True 15 0.1 demo_airplane) ! 2) = 2.5 \<and>
   rotation_z (scene (Airplane_useFrame False 0.3 True 15 0.1 demo_airplane) ! 3) = 3.5 \<and>
   scene (Airplane_useFrame False 0.3 True 15 0.1 demo_airplane) ! 1 = demo_scene ! 1 \<and>
   scene (Airplane_useFrame True 0.3 True 15 0.1 demo_airplane)
     = scene (Airplane_useFrame False 0.3 True 15 0.1 demo_airplane) \<and>
   scene (Airplane_useFrame True 0.3 True 15 0.1 (demo_airplane\<lparr>blades := []\<rparr>)) = demo_scene \<and>
   scene (Airplane_useFrame True 0.3 False 15 0.1 demo_airplane) = demo_scene"
proof -
  have b: "blades demo_airplane = [3, 2]" and sc: "scene demo_airplane = demo_scene"
    by (simp_all add: demo_airplane_def Airplane_effect_def demo_blades)
  have h: "True \<and> demo_airplane
             = Airplane_effect \<lparr>scene = demo_scene, modelRef = Some demo_group, blades = []\<rparr>"
    by (simp add: demo_airplane_def)
  note t = propeller_driver [where isPropellerSpinning' = True and a = demo_airplane
      and ?a0.0 = "\<lparr>scene = demo_scene, modelRef = Some demo_group, blades = []\<rparr>"
      and rot = False and rs = "0.3" and sp = 15 and delta = "0.1"]
  note spun = t [THEN conjunct1, THEN mp, OF h, THEN conjunct2, THEN conjunct2]
  have n: "rotation_z (demo_scene ! 2) = 1" "rotation_z (demo_scene ! 3) = 2" "length demo_scene = 4"
    by (simp_all add: demo_scene_def)
  have r2: "rotation_z (scene (Airplane_useFrame False 0.3 True 15 0.1 demo_airplane) ! 2) = 2.5"
    using spun [THEN spec, of 2] by (simp add: b sc n)
  have r3: "rotation_z (scene (Airplane_useFrame False 0.3 True 15 0.1 demo_airplane) ! 3) = 3.5"
    using spun [THEN spec, of 3] by (simp add: b sc n)
  have r1: "scene (Airplane_useFrame False 0.3 True 15 0.1 demo_airplane) ! 1 = demo_scene ! 1"
    using spun [THEN spec, of 1] by (simp add: b sc n)
  have ind: "scene (Airplane_useFrame True 0.3 True 15 0.1 demo_airplane)
     = scene (Airplane_useFrame False 0.3 True 15 0.1 demo_airplane)"
    using propeller_driver [where a = demo_airplane and rs = "0.3" and spin = True and sp = 15
         and delta = "0.1", THEN conjunct2, THEN conjunct1] .
  have none: "scene (Airplane_useFrame True 0.3 True 15 0.1 (demo_airplane\<lparr>blades := []\<rparr>)) = demo_scene"
    using propeller_driver [where a = "demo_airplane\<lparr>blades := []\<rparr>" and rot = True and rs = "0.3"
         and spin = True and sp = 15 and delta = "0.1", THEN conjunct2, THEN conjunct2, THEN conjunct1]
    by (simp add: sc)
  have off: "scene (Airplane_useFrame True 0.3 False 15 0.1 demo_airplane) = demo_scene"
    using propeller_driver [where a = demo_airplane and rot = True and rs = "0.3"
         and spin = False and sp = 15 and delta = "0.1", THEN conjunct2, THEN conjunct2,
         THEN conjunct2, THEN conjunct1]
    by (simp add: sc)
  show ?thesis
    using b r2 r3 r1 ind none off by (intro conjI)
qed

end
